theory Spec2Isabelle
  imports Complex_Main "HOL-Library.Char_ord" "HOL-Library.List_Lexorder" "HOL-Library.Sublist"
    "HOL-Library.Multiset"
begin

section \<open>Exceptions\<close>

text \<open>
  The Python exceptions that the modelled code can raise. \<open>LibraryError\<close> stands for any
  exception (a subclass of \<open>Exception\<close>) raised inside geopandas, shapely or the file
  driver.
\<close>

datatype py_error =
    TypeError
  | IndexError
  | KeyError
  | AttributeError
  | ZeroDivisionError
  | PermissionError
  | LibraryError string

section \<open>Geometries and the vertex counter\<close>

text \<open>
  A coordinate tuple is a list of numbers (two or three of them). Floating-point numbers
  are idealised as rationals. A shapely geometry is a tagged union; \<open>LinearRing\<close> and
  \<open>GeometryCollection\<close> are the shapely types that \<open>count_vertices\<close> does not
  handle. A polygon is its exterior ring and the list of its interior rings (holes).
\<close>

type_synonym coord = "rat list"

datatype geometry =
    Point coord
  | MultiPoint "coord list"
  | LineString "coord list"
  | MultiLineString "coord list list"
  | Polygon "coord list" "coord list list"
  | MultiPolygon "(coord list \<times> coord list list) list"
  | LinearRing "coord list"
  | GeometryCollection "geometry list"

fun geom_type :: "geometry \<Rightarrow> string" where
  "geom_type (Point c) = ''Point''"
| "geom_type (MultiPoint ps) = ''MultiPoint''"
| "geom_type (LineString cs) = ''LineString''"
| "geom_type (MultiLineString ls) = ''MultiLineString''"
| "geom_type (Polygon e hs) = ''Polygon''"
| "geom_type (MultiPolygon ps) = ''MultiPolygon''"
| "geom_type (LinearRing cs) = ''LinearRing''"
| "geom_type (GeometryCollection gs) = ''GeometryCollection''"

text \<open>
  The attribute accesses of the source: \<open>geom.exterior.coords\<close>, \<open>geom.coords\<close> and
  \<open>geom.geoms\<close>. An attribute that the geometry's class does not have raises
  \<open>AttributeError\<close> (shapely raises \<open>NotImplementedError\<close> for \<open>coords\<close> of
  a multi-part geometry; both are exceptions, and the model keeps one name).
\<close>

fun exterior_coords :: "geometry \<Rightarrow> py_error + coord list" where
  "exterior_coords (Polygon e hs) = Inr e"
| "exterior_coords g = Inl AttributeError"

fun coords_of :: "geometry \<Rightarrow> py_error + coord list" where
  "coords_of (Point c) = Inr [c]"
| "coords_of (LineString cs) = Inr cs"
| "coords_of (LinearRing cs) = Inr cs"
| "coords_of g = Inl AttributeError"

fun geoms :: "geometry \<Rightarrow> py_error + geometry list" where
  "geoms (MultiPoint ps) = Inr (map Point ps)"
| "geoms (MultiLineString ls) = Inr (map LineString ls)"
| "geoms (MultiPolygon ps) = Inr (map (\<lambda>(e, hs). Polygon e hs) ps)"
| "geoms (GeometryCollection gs) = Inr gs"
| "geoms g = Inl AttributeError"

text \<open>\<open>len(x)\<close> of a value that may have raised.\<close>

definition len :: "py_error + 'a list \<Rightarrow> py_error + int" where
  "len r = (case r of Inl e \<Rightarrow> Inl e | Inr xs \<Rightarrow> Inr (int (length xs)))"

text \<open>\<open>sum(f(x) for x in xs)\<close>: left to right, the first exception aborts the sum.\<close>

fun sum_gen :: "('a \<Rightarrow> py_error + int) \<Rightarrow> 'a list \<Rightarrow> py_error + int" where
  "sum_gen f [] = Inr 0"
| "sum_gen f (x # xs) =
     (case f x of
        Inl e \<Rightarrow> Inl e
      | Inr n \<Rightarrow> (case sum_gen f xs of Inl e \<Rightarrow> Inl e | Inr m \<Rightarrow> Inr (n + m)))"

text \<open>
  \<open>count_vertices\<close> of the source, with its chain of comparisons of \<open>geom.geom_type\<close>
  in the source's order. \<open>None\<close> is Python's \<open>None\<close>.
\<close>

definition count_vertices :: "geometry option \<Rightarrow> py_error + int" where
  "count_vertices geom =
     (case geom of
        None \<Rightarrow> Inr 0
      | Some g \<Rightarrow>
          (if geom_type g = ''Polygon'' then len (exterior_coords g)
           else if geom_type g = ''MultiPolygon'' then
             (case geoms g of
                Inl e \<Rightarrow> Inl e
              | Inr polys \<Rightarrow> sum_gen (\<lambda>poly. len (exterior_coords poly)) polys)
           else if geom_type g = ''LineString'' then len (coords_of g)
           else if geom_type g = ''MultiLineString'' then
             (case geoms g of
                Inl e \<Rightarrow> Inl e
              | Inr lines \<Rightarrow> sum_gen (\<lambda>line. len (coords_of line)) lines)
           else if geom_type g = ''Point'' then Inr 1
           else if geom_type g = ''MultiPoint'' then len (geoms g)
           else Inr 0))"

section \<open>The coordinate rounder\<close>

text \<open>
  The coordinates of a serialized geometry, as \<open>json.load\<close> returns them: nested lists
  of numbers.
\<close>

datatype 'a coords = Number 'a | Array "'a coords list"

text \<open>\<open>PRECISION\<close> of \<open>config.py\<close>.\<close>

definition PRECISION :: nat where
  "PRECISION = 6"

text \<open>
  Python's \<open>round(x, ndigits)\<close> for \<open>ndigits \<ge> 0\<close>, on the exact value of the number:
  the nearest multiple of \<open>10 ^ (- ndigits)\<close>, a tie going to the even one. The
  representation error of binary floating point is left out.
\<close>

definition py_round :: "rat \<Rightarrow> nat \<Rightarrow> rat" where
  "py_round x ndigits =
     (let s = 10 ^ ndigits;
          y = x * s;
          f = \<lfloor>y\<rfloor>;
          d = y - of_int f;
          k = (if d < 1 / 2 then f else if 1 / 2 < d then f + 1
               else if even f then f else f + 1)
      in of_int k / s)"

text \<open>
  \<open>[round(c, PRECISION) for c in coords]\<close> with the builtin as the parameter \<open>rnd\<close>:
  \<open>round\<close> of a list raises \<open>TypeError\<close>.
\<close>

fun round_leaves :: "('a \<Rightarrow> 'a) \<Rightarrow> 'a coords list \<Rightarrow> py_error + 'a coords list" where
  "round_leaves rnd [] = Inr []"
| "round_leaves rnd (Number c # cs) =
     (case round_leaves rnd cs of Inl e \<Rightarrow> Inl e | Inr rs \<Rightarrow> Inr (Number (rnd c) # rs))"
| "round_leaves rnd (Array ys # cs) = Inl TypeError"

text \<open>
  \<open>round_coords\<close> of the source (nested in \<open>process_layer\<close>). \<open>coords[0]\<close> raises
  \<open>TypeError\<close> on a number and \<open>IndexError\<close> on an empty list. \<open>round_each\<close> is
  the comprehension \<open>[round_coords(c) for c in coords]\<close>.
\<close>

fun round_coords :: "('a \<Rightarrow> 'a) \<Rightarrow> 'a coords \<Rightarrow> py_error + 'a coords"
  and round_each :: "('a \<Rightarrow> 'a) \<Rightarrow> 'a coords list \<Rightarrow> py_error + 'a coords list" where
  "round_coords rnd (Number x) = Inl TypeError"
| "round_coords rnd (Array []) = Inl IndexError"
| "round_coords rnd (Array (Array ys # cs)) =
     (case round_each rnd (Array ys # cs) of Inl e \<Rightarrow> Inl e | Inr rs \<Rightarrow> Inr (Array rs))"
| "round_coords rnd (Array (Number x # cs)) =
     (case round_leaves rnd (Number x # cs) of Inl e \<Rightarrow> Inl e | Inr rs \<Rightarrow> Inr (Array rs))"
| "round_each rnd [] = Inr []"
| "round_each rnd (c # cs) =
     (case round_coords rnd c of
        Inl e \<Rightarrow> Inl e
      | Inr r \<Rightarrow> (case round_each rnd cs of Inl e \<Rightarrow> Inl e | Inr rs \<Rightarrow> Inr (r # rs)))"


section \<open>Log\<close>

text \<open>
  The lines that the code writes to its logger, as structured messages (the source's
  texts are French sentences with pictograms). Progress lines that carry no outcome
  (separators, "loading", "export") are left out.
\<close>

datatype level = INFO | WARNING | ERROR

datatype message =
    LayerStart string
  | SourceMissing string
  | BackupCreated string
  | BackupDeleted string
  | InvalidGeometries nat
  | GeometriesFixed
  | Reduction rat int int
  | SimplificationDone
  | LayerSuccess string
  | LayerError string py_error
  | FinalReport nat nat
  | AllSucceeded
  | LayersFailed nat

type_synonym log_entry = "level \<times> message"

section \<open>GeoDataFrame\<close>

text \<open>
  A GeoDataFrame is its coordinate reference system and its columns in order, the
  geometry column (named \<open>geometry\<close> by \<open>read_file\<close>) among them. A data column
  carries whether its dtype is a datetime64 one. \<open>VNaN\<close> is a missing value (NaN, NaT).
\<close>

datatype cell = VStr string | VInt int | VFloat rat | VBool bool | VDate nat nat nat | VNaN | VNone

datatype column = GeomCol "geometry option list" | DataCol bool "cell list"

record gdf =
  crs :: "string option"
  frame :: "(string \<times> column) list"

definition columns :: "gdf \<Rightarrow> string list" where
  "columns g = map fst (frame g)"

text \<open>\<open>gdf.geometry\<close>: raises when the frame has no geometry column.\<close>

definition geometry_series :: "gdf \<Rightarrow> py_error + geometry option list" where
  "geometry_series g =
     (case map_of (frame g) ''geometry'' of
        Some (GeomCol gs) \<Rightarrow> Inr gs
      | Some (DataCol dt cs) \<Rightarrow> Inl AttributeError
      | None \<Rightarrow> Inl AttributeError)"

text \<open>\<open>gdf['geometry'] = gs\<close>: replaces the column where it stands, or appends it.\<close>

definition set_geometry :: "gdf \<Rightarrow> geometry option list \<Rightarrow> gdf" where
  "set_geometry g gs =
     g\<lparr>frame :=
         (if ''geometry'' \<in> set (columns g)
          then map (\<lambda>(n, c). if n = ''geometry'' then (n, GeomCol gs) else (n, c)) (frame g)
          else frame g @ [(''geometry'', GeomCol gs)])\<rparr>"

section \<open>GeoJSON\<close>

record jgeometry =
  gtype :: string
  coordinates :: "rat coords option"

record feature =
  geometry :: "jgeometry option"
  properties :: "(string \<times> cell) list"

section \<open>Library operations and configuration\<close>

text \<open>
  The operations of geopandas, shapely and the GeoJSON driver that the code calls are
  parameters of the model: \<open>is_valid\<close>, \<open>buffer(0)\<close>, \<open>to_crs\<close>,
  \<open>simplify(tolerance, preserve_topology=True)\<close>, and \<open>to_file\<close> followed by
  \<open>json.load\<close> (the list of the features of the written FeatureCollection).
\<close>

record env =
  is_valid :: "geometry \<Rightarrow> bool"
  buffer0 :: "geometry \<Rightarrow> geometry"
  to_crs :: "string \<Rightarrow> gdf \<Rightarrow> py_error + gdf"
  simplify :: "rat \<Rightarrow> geometry \<Rightarrow> geometry"
  to_geojson :: "gdf \<Rightarrow> py_error + feature list"

text \<open>The parameters of \<open>config.py\<close> that the processing reads, and their values there.\<close>

record config =
  TARGET_CRS :: string
  SIMPLIFY_TOLERANCE :: rat
  ATTRIBUTES_TO_KEEP :: "string list"

definition default_config :: config where
  "default_config =
     \<lparr>TARGET_CRS = ''EPSG:4326'', SIMPLIFY_TOLERANCE = 1 / 100000, ATTRIBUTES_TO_KEEP = []\<rparr>"

record layer_config =
  source_file :: string
  output_name :: string
  description :: string


section \<open>Geometry repair\<close>

text \<open>
  \<open>validate_and_fix_geometries\<close>. \<open>gdf.is_valid\<close> is False for a missing geometry,
  and \<open>buffer\<close> keeps a missing geometry missing. The result is the lines logged and
  the frame, or the exception.
\<close>

definition is_valid_series :: "env \<Rightarrow> geometry option list \<Rightarrow> bool list" where
  "is_valid_series env gs = map (\<lambda>g. case g of None \<Rightarrow> False | Some x \<Rightarrow> is_valid env x) gs"

definition validate_and_fix_geometries :: "env \<Rightarrow> gdf \<Rightarrow> log_entry list \<times> (py_error + gdf)" where
  "validate_and_fix_geometries env g =
     (case geometry_series g of
        Inl e \<Rightarrow> ([], Inl e)
      | Inr gs \<Rightarrow>
          (let invalid_count = length (filter (\<lambda>v. \<not> v) (is_valid_series env gs))
           in if invalid_count > 0
              then ([(WARNING, InvalidGeometries invalid_count), (INFO, GeometriesFixed)],
                    Inr (set_geometry g (map (map_option (buffer0 env)) gs)))
              else ([], Inr g)))"

section \<open>Attribute cleaner\<close>

definition startswith :: "string \<Rightarrow> string \<Rightarrow> bool" where
  "startswith s p = (take (length p) s = p)"

text \<open>\<open>gdf.drop(columns=names)\<close>.\<close>

definition drop_columns :: "string list \<Rightarrow> gdf \<Rightarrow> gdf" where
  "drop_columns names g = g\<lparr>frame := filter (\<lambda>(n, c). n \<notin> set names) (frame g)\<rparr>"

text \<open>\<open>gdf[keys]\<close>: the columns in the order of the keys; a missing key raises.\<close>

definition select_columns :: "string list \<Rightarrow> gdf \<Rightarrow> py_error + gdf" where
  "select_columns keys g =
     (if list_all (\<lambda>k. k \<in> set (columns g)) keys
      then Inr (g\<lparr>frame := concat (map (\<lambda>k. filter (\<lambda>(n, c). n = k) (frame g)) keys)\<rparr>)
      else Inl KeyError)"

definition digit :: "nat \<Rightarrow> char" where
  "digit n = ''0123456789'' ! (n mod 10)"

text \<open>\<open>strftime('%Y-%m-%d')\<close> of a date; a missing date stays missing.\<close>

fun strftime_ymd :: "cell \<Rightarrow> cell" where
  "strftime_ymd (VDate y m d) =
     VStr ([digit (y div 1000), digit (y div 100), digit (y div 10), digit y] @ ''-'' @
           [digit (m div 10), digit m] @ ''-'' @ [digit (d div 10), digit d])"
| "strftime_ymd c = c"

fun dates_to_strings :: "column \<Rightarrow> column" where
  "dates_to_strings (DataCol dt cs) = (if dt then DataCol False (map strftime_ymd cs) else DataCol dt cs)"
| "dates_to_strings (GeomCol gs) = GeomCol gs"

text \<open>\<open>gdf.where(pd.notnull(gdf), None)\<close>, on one column.\<close>

fun null_to_None :: "cell \<Rightarrow> cell" where
  "null_to_None VNaN = VNone"
| "null_to_None c = c"

fun where_notnull :: "column \<Rightarrow> column" where
  "where_notnull (DataCol dt cs) = DataCol dt (map null_to_None cs)"
| "where_notnull (GeomCol gs) = GeomCol gs"

text \<open>\<open>clean_attributes\<close>, with \<open>ATTRIBUTES_TO_KEEP\<close> as its first argument.\<close>

definition clean_attributes :: "string list \<Rightarrow> gdf \<Rightarrow> py_error + gdf" where
  "clean_attributes keep g =
     (let columns_to_drop = filter (\<lambda>col. startswith col ''__'') (columns g);
          g1 = (if columns_to_drop \<noteq> [] then drop_columns columns_to_drop g else g)
      in case (if keep \<noteq> []
               then select_columns
                      (''geometry'' # filter (\<lambda>col. col \<in> set (columns g1)) keep) g1
               else Inr g1) of
           Inl e \<Rightarrow> Inl e
         | Inr g2 \<Rightarrow>
             Inr (g2\<lparr>frame := map (\<lambda>(n, c). (n, where_notnull (dates_to_strings c))) (frame g2)\<rparr>))"

section \<open>Simplification and its report\<close>

definition py_truediv :: "int \<Rightarrow> int \<Rightarrow> py_error + rat" where
  "py_truediv a b = (if b = 0 then Inl ZeroDivisionError else Inr (of_int a / of_int b))"

text \<open>The report of the reduction (lines 206 to 211 of \<open>process_data.py\<close>).\<close>

definition reduction_report :: "int \<Rightarrow> int \<Rightarrow> py_error + log_entry" where
  "reduction_report original_vertices simplified_vertices =
     (if original_vertices > 0
      then (case py_truediv simplified_vertices original_vertices of
              Inl e \<Rightarrow> Inl e
            | Inr q \<Rightarrow> Inr (INFO, Reduction (100 * (1 - q)) original_vertices simplified_vertices))
      else Inr (INFO, SimplificationDone))"

text \<open>\<open>gdf.geometry.apply(count_vertices).sum()\<close>.\<close>

definition total_vertices :: "gdf \<Rightarrow> py_error + int" where
  "total_vertices g =
     (case geometry_series g of Inl e \<Rightarrow> Inl e | Inr gs \<Rightarrow> sum_gen count_vertices gs)"

text \<open>\<open>gdf['geometry'] = gdf.geometry.simplify(tolerance, preserve_topology=True)\<close>.\<close>

definition simplify_geometries :: "env \<Rightarrow> rat \<Rightarrow> gdf \<Rightarrow> py_error + gdf" where
  "simplify_geometries env tolerance g =
     (case geometry_series g of
        Inl e \<Rightarrow> Inl e
      | Inr gs \<Rightarrow> Inr (set_geometry g (map (map_option (simplify env tolerance)) gs)))"

text \<open>Step 6 of \<open>process_layer\<close>: count, simplify, count, report.\<close>

definition simplify_stage :: "config \<Rightarrow> env \<Rightarrow> gdf \<Rightarrow> log_entry list \<times> (py_error + gdf)" where
  "simplify_stage cfg env g =
     (case total_vertices g of
        Inl e \<Rightarrow> ([], Inl e)
      | Inr original_vertices \<Rightarrow>
          (case simplify_geometries env (SIMPLIFY_TOLERANCE cfg) g of
             Inl e \<Rightarrow> ([], Inl e)
           | Inr g' \<Rightarrow>
               (case total_vertices g' of
                  Inl e \<Rightarrow> ([], Inl e)
                | Inr simplified_vertices \<Rightarrow>
                    (case reduction_report original_vertices simplified_vertices of
                       Inl e \<Rightarrow> ([], Inl e)
                     | Inr entry \<Rightarrow> ([entry], Inr g')))))"

text \<open>Steps 4 to 7 of \<open>process_layer\<close>: repair, reprojection, simplification, cleaning.\<close>

definition transform :: "config \<Rightarrow> env \<Rightarrow> gdf \<Rightarrow> log_entry list \<times> (py_error + gdf)" where
  "transform cfg env g0 =
     (case validate_and_fix_geometries env g0 of
        (l1, Inl e) \<Rightarrow> (l1, Inl e)
      | (l1, Inr g1) \<Rightarrow>
          (case (if crs g1 \<noteq> Some (TARGET_CRS cfg) then to_crs env (TARGET_CRS cfg) g1
                 else Inr g1) of
             Inl e \<Rightarrow> (l1, Inl e)
           | Inr g2 \<Rightarrow>
               (case simplify_stage cfg env g2 of
                  (l3, Inl e) \<Rightarrow> (l1 @ l3, Inl e)
                | (l3, Inr g3) \<Rightarrow> (l1 @ l3, clean_attributes (ATTRIBUTES_TO_KEEP cfg) g3))))"

section \<open>Rounding the serialized features\<close>

text \<open>
  The loop of lines 236 to 238: \<open>feature['geometry']\<close> is \<open>None\<close> for a null
  geometry, and subscripting it raises \<open>TypeError\<close>; a geometry object without the
  key \<open>coordinates\<close> raises \<open>KeyError\<close>.
\<close>

fun round_features :: "(rat \<Rightarrow> rat) \<Rightarrow> feature list \<Rightarrow> py_error + feature list" where
  "round_features rnd [] = Inr []"
| "round_features rnd (f # fs) =
     (case geometry f of
        None \<Rightarrow> Inl TypeError
      | Some geom \<Rightarrow>
          (case coordinates geom of
             None \<Rightarrow> Inl KeyError
           | Some cs \<Rightarrow>
               (case round_coords rnd cs of
                  Inl e \<Rightarrow> Inl e
                | Inr cs' \<Rightarrow>
                    (case round_features rnd fs of
                       Inl e \<Rightarrow> Inl e
                     | Inr fs' \<Rightarrow>
                         Inr (f\<lparr>geometry := Some (geom\<lparr>coordinates := Some cs'\<rparr>)\<rparr> # fs')))))"

section \<open>Files\<close>

text \<open>
  The state of the three directories: the source files of \<open>RAW_DATA_DIR\<close>, each with
  what \<open>read_file\<close> returns on it; the files of \<open>PROCESSED_DATA_DIR\<close> with the
  features they hold; the names of the files of \<open>BACKUP_DIR\<close> (a directory listing: no
  name twice); the names whose \<open>unlink\<close> raises; and the log.
\<close>

record world =
  raw :: "string \<rightharpoonup> py_error + gdf"
  processed :: "string \<rightharpoonup> feature list"
  backup_dir :: "string list"
  undeletable :: "string set"
  logs :: "log_entry list"

text \<open>\<open>Path.stem\<close> and \<open>Path.suffix\<close> of a file name, as pathlib computes them.\<close>

definition rfind_dot :: "string \<Rightarrow> nat option" where
  "rfind_dot name =
     (if CHR ''.'' \<in> set name
      then Some (length name - 1 - length (takeWhile (\<lambda>c. c \<noteq> CHR ''.'') (rev name)))
      else None)"

definition path_suffix :: "string \<Rightarrow> string" where
  "path_suffix name =
     (case rfind_dot name of
        Some i \<Rightarrow> if 0 < i \<and> i < length name - 1 then drop i name else []
      | None \<Rightarrow> [])"

definition path_stem :: "string \<Rightarrow> string" where
  "path_stem name =
     (case rfind_dot name of
        Some i \<Rightarrow> if 0 < i \<and> i < length name - 1 then take i name else name
      | None \<Rightarrow> name)"

section \<open>Backup manager\<close>

definition backup_name :: "string \<Rightarrow> string \<Rightarrow> string \<Rightarrow> string" where
  "backup_name stem timestamp sfx = stem @ ''_'' @ timestamp @ sfx"

text \<open>
  A name matches the pattern \<open>{stem}_*{suffix}\<close>. The stem and the suffix are matched
  as literal text: a stem with a glob metacharacter (\<open>*\<close>, \<open>?\<close>, \<open>[\<close>) is outside
  the model.
\<close>

definition glob_match :: "string \<Rightarrow> string \<Rightarrow> string \<Rightarrow> bool" where
  "glob_match stem sfx name =
     (length stem + 1 + length sfx \<le> length name
      \<and> take (length stem + 1) name = stem @ ''_''
      \<and> drop (length name - length sfx) name = sfx)"

definition glob_backups :: "string \<Rightarrow> string \<Rightarrow> string list \<Rightarrow> string list" where
  "glob_backups stem sfx dir = filter (glob_match stem sfx) dir"

text \<open>
  The loop \<open>for old_backup in backups[:-3]\<close>: an \<open>unlink\<close> that raises ends the loop,
  and the exception leaves \<open>backup_existing_file\<close>.
\<close>

fun unlink_each :: "string list \<Rightarrow> world \<Rightarrow> py_error option \<times> world" where
  "unlink_each [] w = (None, w)"
| "unlink_each (old_backup # rest) w =
     (if old_backup \<in> undeletable w then (Some PermissionError, w)
      else unlink_each rest
             (w\<lparr>backup_dir := removeAll old_backup (backup_dir w),
                logs := logs w @ [(INFO, BackupDeleted old_backup)]\<rparr>))"

text \<open>
  \<open>backup_existing_file\<close>; \<open>now\<close> is \<open>datetime.now().strftime('%Y%m%d_%H%M%S')\<close>.
  \<open>copy2\<close> onto an existing name overwrites that file. \<open>sorted\<close> orders the paths
  as strings, character by character.
\<close>

definition backup_existing_file :: "string \<Rightarrow> string \<Rightarrow> world \<Rightarrow> py_error option \<times> world" where
  "backup_existing_file now output_path w =
     (if processed w output_path = None then (None, w)
      else
        (let backup = backup_name (path_stem output_path) now (path_suffix output_path);
             w1 = w\<lparr>backup_dir :=
                      (if backup \<in> set (backup_dir w) then backup_dir w
                       else backup_dir w @ [backup]),
                    logs := logs w @ [(INFO, BackupCreated backup)]\<rparr>;
             backups = sort (glob_backups (path_stem output_path) (path_suffix output_path)
                                (backup_dir w1))
         in unlink_each (take (length backups - 3) backups) w1))"

section \<open>Layer pipeline\<close>

text \<open>The body of the \<open>try\<close> of \<open>process_layer\<close>: the exception raised, if any.\<close>

definition process_layer_try ::
  "config \<Rightarrow> env \<Rightarrow> string \<Rightarrow> string \<Rightarrow> layer_config \<Rightarrow> world \<Rightarrow> py_error option \<times> world" where
  "process_layer_try cfg env now layer_name lc w =
     (case backup_existing_file now (output_name lc) w of
        (Some e, w1) \<Rightarrow> (Some e, w1)
      | (None, w1) \<Rightarrow>
          (case raw w1 (source_file lc) of
             None \<Rightarrow> (Some (LibraryError ''read_file''), w1)
           | Some (Inl e) \<Rightarrow> (Some e, w1)
           | Some (Inr g) \<Rightarrow>
               (case transform cfg env g of
                  (ls, Inl e) \<Rightarrow> (Some e, w1\<lparr>logs := logs w1 @ ls\<rparr>)
                | (ls, Inr g') \<Rightarrow>
                    (let w2 = w1\<lparr>logs := logs w1 @ ls\<rparr>
                     in case to_geojson env g' of
                          Inl e \<Rightarrow> (Some e, w2)
                        | Inr fc \<Rightarrow>
                            (let w3 = w2\<lparr>processed := (processed w2)(output_name lc \<mapsto> fc)\<rparr>
                             in case round_features (\<lambda>c. py_round c PRECISION) fc of
                                  Inl e \<Rightarrow> (Some e, w3)
                                | Inr fc' \<Rightarrow>
                                    (None,
                                     w3\<lparr>processed := (processed w3)(output_name lc \<mapsto> fc'),
                                        logs := logs w3 @ [(INFO, LayerSuccess layer_name)]\<rparr>))))))"

text \<open>\<open>process_layer\<close>: the source check, then the \<open>try\<close> with its \<open>except Exception\<close>.\<close>

definition process_layer ::
  "config \<Rightarrow> env \<Rightarrow> string \<Rightarrow> string \<Rightarrow> layer_config \<Rightarrow> world \<Rightarrow> bool \<times> world" where
  "process_layer cfg env now layer_name lc w =
     (let w0 = w\<lparr>logs := logs w @ [(INFO, LayerStart layer_name)]\<rparr>
      in if raw w0 (source_file lc) = None
         then (False, w0\<lparr>logs := logs w0 @ [(ERROR, SourceMissing (source_file lc))]\<rparr>)
         else (case process_layer_try cfg env now layer_name lc w0 of
                 (None, w') \<Rightarrow> (True, w')
               | (Some e, w') \<Rightarrow>
                   (False, w'\<lparr>logs := logs w' @ [(ERROR, LayerError layer_name e)]\<rparr>)))"



section \<open>The contract of the simplifier\<close>


section \<open>An instance of the library operations\<close>

text \<open>
  To evaluate the program on concrete inputs, the library operations are instantiated
  as follows. A polygon whose exterior ring passes twice through a vertex is invalid; the
  other geometries of the examples are valid.
\<close>

definition ex_is_valid :: "geometry \<Rightarrow> bool" where
  "ex_is_valid g = (case g of Polygon e hs \<Rightarrow> distinct (butlast e) | _ \<Rightarrow> True)"

text \<open>
  \<open>buffer(0)\<close> of a point or of a line has no area: shapely returns the empty polygon.
  What the library returns for a polygon (the same area for a valid one, possibly with
  its vertices in another order) is not read by any statement below.
\<close>

definition ex_buffer0 :: "geometry \<Rightarrow> geometry" where
  "ex_buffer0 g =
     (case g of
        Polygon e hs \<Rightarrow> Polygon e hs
      | MultiPolygon ps \<Rightarrow> MultiPolygon ps
      | _ \<Rightarrow> Polygon [] [])"

text \<open>\<open>to_crs\<close> raises on a frame without a CRS; the coordinates are left as they are.\<close>

definition ex_to_crs :: "string \<Rightarrow> gdf \<Rightarrow> py_error + gdf" where
  "ex_to_crs target g =
     (case crs g of
        None \<Rightarrow> Inl (LibraryError ''to_crs'')
      | Some c \<Rightarrow> Inr (g\<lparr>crs := Some target\<rparr>))"

text \<open>
  The GeoJSON encoding of a geometry: a position is the list of its numbers, an empty
  polygon has the coordinates \<open>[]\<close>, a geometry collection has no \<open>coordinates\<close>
  member, and a missing geometry is \<open>null\<close>.
\<close>

definition position_json :: "coord \<Rightarrow> rat coords" where
  "position_json c = Array (map Number c)"

definition path_json :: "coord list \<Rightarrow> rat coords" where
  "path_json cs = Array (map position_json cs)"

definition geometry_json :: "geometry \<Rightarrow> jgeometry" where
  "geometry_json g =
     \<lparr>gtype = geom_type g,
      coordinates =
        (case g of
           Point c \<Rightarrow> Some (position_json c)
         | MultiPoint ps \<Rightarrow> Some (path_json ps)
         | LineString cs \<Rightarrow> Some (path_json cs)
         | MultiLineString ls \<Rightarrow> Some (Array (map path_json ls))
         | Polygon e hs \<Rightarrow> Some (if e = [] then Array [] else Array (map path_json (e # hs)))
         | MultiPolygon ps \<Rightarrow> Some (Array (map (\<lambda>(e, hs). Array (map path_json (e # hs))) ps))
         | LinearRing cs \<Rightarrow> Some (path_json cs)
         | GeometryCollection gs \<Rightarrow> None)\<rparr>"

definition row_properties :: "(string \<times> column) list \<Rightarrow> nat \<Rightarrow> (string \<times> cell) list" where
  "row_properties fr i =
     concat (map (\<lambda>(n, c). case c of
                              DataCol dt cs \<Rightarrow> [(n, if i < length cs then cs ! i else VNone)]
                            | GeomCol gs \<Rightarrow> []) fr)"

definition ex_to_geojson :: "gdf \<Rightarrow> py_error + feature list" where
  "ex_to_geojson g =
     (case geometry_series g of
        Inl e \<Rightarrow> Inl e
      | Inr gs \<Rightarrow>
          Inr (map (\<lambda>i. \<lparr>geometry = map_option geometry_json (gs ! i),
                          properties = row_properties (frame g) i\<rparr>)
                 [0..<length gs]))"

definition ex_env :: env where
  "ex_env =
     \<lparr>is_valid = ex_is_valid, buffer0 = ex_buffer0, to_crs = ex_to_crs,
      simplify = (\<lambda>tolerance g. g), to_geojson = ex_to_geojson\<rparr>"


text \<open>A frame with a self-touching polygon and a valid line.\<close>

definition ex_parcels :: gdf where
  "ex_parcels =
     \<lparr>crs = Some ''EPSG:4326'',
      frame =
        [(''nom'', DataCol False [VStr ''A'', VStr ''B'']),
         (''geometry'',
          GeomCol [Some (Polygon [[0, 0], [2, 0], [1, 1], [2, 2], [0, 2], [1, 1], [0, 0]] []),
                   Some (LineString [[0, 0], [1, 1]])])]\<rparr>"


text \<open>A frame with a line of three vertices, a missing geometry and a point.\<close>

definition ex_roads :: gdf where
  "ex_roads =
     \<lparr>crs = Some ''EPSG:4326'',
      frame =
        [(''geometry'',
          GeomCol [Some (LineString [[0, 0], [1, 1 / 1000000], [2, 0]]), None,
                   Some (Point [5, 5])])]\<rparr>"


section \<open>Sequences of backups\<close>

text \<open>
  Sequential calls of \<open>backup_existing_file\<close> on one output path, one for each time
  read; an exception ends the sequence.
\<close>

fun backup_repeatedly :: "string list \<Rightarrow> string \<Rightarrow> world \<Rightarrow> py_error option \<times> world" where
  "backup_repeatedly [] output_path w = (None, w)"
| "backup_repeatedly (now # rest) output_path w =
     (case backup_existing_file now output_path w of
        (Some e, w') \<Rightarrow> (Some e, w')
      | (None, w') \<Rightarrow> backup_repeatedly rest output_path w')"

text \<open>The names of the deleted backups in a log, in the order of their deletion.\<close>

fun deleted_backups :: "log_entry list \<Rightarrow> string list" where
  "deleted_backups [] = []"
| "deleted_backups ((l, BackupDeleted b) # es) = b # deleted_backups es"
| "deleted_backups (e # es) = deleted_backups es"

text \<open>A text without a glob metacharacter.\<close>

definition glob_literal :: "string \<Rightarrow> bool" where
  "glob_literal s = (CHR ''*'' \<notin> set s \<and> CHR ''?'' \<notin> set s \<and> CHR ''['' \<notin> set s)"

text \<open>The backups of an output path in the backup directory, as the code lists them.\<close>

definition archives :: "string \<Rightarrow> world \<Rightarrow> string list" where
  "archives output_path w =
     sort (glob_backups (path_stem output_path) (path_suffix output_path) (backup_dir w))"

text \<open>
  A state where \<open>lots.geojson\<close> exists, with one earlier backup of it and two other files
  in the backup directory.
\<close>

definition ex_world :: world where
  "ex_world =
     \<lparr>raw = Map.empty,
      processed = [''lots.geojson'' \<mapsto> []],
      backup_dir = [''lots_20240101_120000.geojson'', ''ilots_20240101_120000.geojson'',
                    ''notes.txt''],
      undeletable = {},
      logs = []\<rparr>"


text \<open>The first layer of \<open>config.py\<close>.\<close>

definition ex_lots :: layer_config where
  "ex_lots =
     \<lparr>source_file = ''LOTS.gpkg'', output_name = ''lots.geojson'',
      description = ''Parcelles de lots''\<rparr>"


text \<open>A frame whose only feature has no geometry, and one whose only feature is an empty polygon.\<close>

definition ex_null_geometry :: gdf where
  "ex_null_geometry =
     \<lparr>crs = Some ''EPSG:4326'',
      frame = [(''name'', DataCol False [VStr ''A'']), (''geometry'', GeomCol [None])]\<rparr>"

definition ex_empty_polygon :: gdf where
  "ex_empty_polygon =
     \<lparr>crs = Some ''EPSG:4326'',
      frame = [(''name'', DataCol False [VStr ''A'']),
               (''geometry'', GeomCol [Some (Polygon [] [])])]\<rparr>"

text \<open>A first run: the source file is there, nothing has been written yet.\<close>

definition ex_first_run :: "gdf \<Rightarrow> world" where
  "ex_first_run g =
     \<lparr>raw = [''LOTS.gpkg'' \<mapsto> Inr g], processed = Map.empty, backup_dir = [],
      undeletable = {}, logs = []\<rparr>"




section \<open>Properties of the vertex counter\<close>

lemma sum_gen_map_Inr:
  "(\<And>x. x \<in> set xs \<Longrightarrow> f (g x) = Inr (h x)) \<Longrightarrow>
   sum_gen f (map g xs) = Inr (sum_list (map h xs))"
  by (induction xs) simp_all

lemma count_vertices_MultiPolygon:
  "count_vertices (Some (MultiPolygon ps)) = Inr (\<Sum>p\<leftarrow>ps. int (length (fst p)))"
proof -
  have "sum_gen (\<lambda>poly. len (exterior_coords poly)) (map (\<lambda>(e, hs). Polygon e hs) ps)
        = Inr (sum_list (map (\<lambda>p. int (length (fst p))) ps))"
    by (rule sum_gen_map_Inr) (simp add: len_def split: prod.split)
  then show ?thesis by (simp add: count_vertices_def)
qed

lemma count_vertices_MultiLineString:
  "count_vertices (Some (MultiLineString ls)) = Inr (\<Sum>l\<leftarrow>ls. int (length l))"
proof -
  have "sum_gen (\<lambda>line. len (coords_of line)) (map LineString ls)
        = Inr (sum_list (map (\<lambda>l. int (length l)) ls))"
    by (rule sum_gen_map_Inr) (simp add: len_def)
  then show ?thesis by (simp add: count_vertices_def)
qed

lemma count_vertices_cases:
  "count_vertices geom =
     Inr (case geom of
            None \<Rightarrow> 0
          | Some (Point c) \<Rightarrow> 1
          | Some (MultiPoint ps) \<Rightarrow> int (length ps)
          | Some (LineString cs) \<Rightarrow> int (length cs)
          | Some (MultiLineString ls) \<Rightarrow> (\<Sum>l\<leftarrow>ls. int (length l))
          | Some (Polygon e hs) \<Rightarrow> int (length e)
          | Some (MultiPolygon ps) \<Rightarrow> (\<Sum>p\<leftarrow>ps. int (length (fst p)))
          | Some (LinearRing cs) \<Rightarrow> 0
          | Some (GeometryCollection gs) \<Rightarrow> 0)"
proof (cases geom)
  case None
  then show ?thesis by (simp add: count_vertices_def)
next
  case (Some g)
  show ?thesis
  proof (cases g)
    case (MultiPolygon ps)
    with Some show ?thesis by (simp add: count_vertices_MultiPolygon)
  next
    case (MultiLineString ls)
    with Some show ?thesis by (simp add: count_vertices_MultiLineString)
  qed (simp_all add: Some count_vertices_def len_def)
qed

lemma sum_list_int_length_nonneg: "0 \<le> (\<Sum>x\<leftarrow>xs. int (length (f x)))"
  by (induction xs) simp_all

lemma count_vertices_nonneg: "\<exists>n. count_vertices geom = Inr n \<and> 0 \<le> n"
proof -
  have "0 \<le> (\<Sum>l\<leftarrow>ls. int (length l))" for ls :: "coord list list"
    using sum_list_int_length_nonneg [of "\<lambda>l. l" ls] by simp
  moreover have "0 \<le> (\<Sum>p\<leftarrow>ps. int (length (fst p)))"
    for ps :: "(coord list \<times> coord list list) list"
    by (rule sum_list_int_length_nonneg)
  ultimately show ?thesis
    by (subst count_vertices_cases) (simp split: option.split geometry.split)
qed

text \<open>
  C3. The vertex counter never raises and returns a non-negative integer: 0 for
  \<open>None\<close> and for the unsupported types, 1 for a Point, the number of member points of a
  MultiPoint, the number of coordinate tuples of a LineString, the sum over the member
  lines of a MultiLineString, the length of the exterior ring of a Polygon (whatever its
  holes), and the sum of the exterior-ring lengths of a MultiPolygon.
\<close>

theorem count_vertices_spec:
  "(\<exists>n. count_vertices geom = Inr n \<and> 0 \<le> n)
   \<and> count_vertices None = Inr 0
   \<and> count_vertices (Some (LinearRing cs)) = Inr 0
   \<and> count_vertices (Some (GeometryCollection gs)) = Inr 0
   \<and> count_vertices (Some (Point c)) = Inr 1
   \<and> count_vertices (Some (MultiPoint pts)) = Inr (int (length pts))
   \<and> count_vertices (Some (LineString cs)) = Inr (int (length cs))
   \<and> count_vertices (Some (MultiLineString ls)) = Inr (\<Sum>l\<leftarrow>ls. int (length l))
   \<and> count_vertices (Some (Polygon e hs)) = Inr (int (length e))
   \<and> count_vertices (Some (MultiPolygon ps)) = Inr (\<Sum>p\<leftarrow>ps. int (length (fst p)))"
  using count_vertices_nonneg [of geom]
  by (simp add: count_vertices_cases)

section \<open>Properties of the coordinate rounder\<close>











section \<open>Properties of the simplification report\<close>


lemma map_of_set_geometry:
  "''geometry'' \<in> fst ` set fr \<Longrightarrow>
   map_of (map (\<lambda>(n, c). if n = ''geometry'' then (n, GeomCol gs) else (n, c)) fr) ''geometry''
     = Some (GeomCol gs)"
  by (induction fr) (auto split: prod.splits)

lemma geometry_series_set_geometry: "geometry_series (set_geometry g gs) = Inr gs"
proof (cases "''geometry'' \<in> fst ` set (frame g)")
  case True
  then show ?thesis
    by (simp add: geometry_series_def set_geometry_def columns_def map_of_set_geometry)
next
  case False
  then have "map_of (frame g) ''geometry'' = None"
    by (simp add: map_of_eq_None_iff)
  with False show ?thesis
    by (simp add: geometry_series_def set_geometry_def columns_def map_add_def)
qed

lemma geometry_series_Inr_columns:
  "geometry_series g = Inr gs \<Longrightarrow> ''geometry'' \<in> set (columns g)"
  by (auto simp: geometry_series_def columns_def split: option.splits column.splits
      dest: map_of_SomeD intro: rev_image_eqI)





section \<open>Properties of the geometry repair\<close>

lemma invalid_count_pos:
  "filter (\<lambda>v. \<not> v) bs = [] \<longleftrightarrow> list_all id bs"
  by (induction bs) auto

lemma map_of_set_geometry_other:
  "n \<noteq> ''geometry'' \<Longrightarrow>
   map_of (map (\<lambda>(n, c). if n = ''geometry'' then (n, GeomCol gs) else (n, c)) fr) n = map_of fr n"
  by (induction fr) (auto split: prod.splits)

lemma set_geometry_frame:
  "''geometry'' \<in> set (columns g) \<Longrightarrow>
     crs (set_geometry g gs) = crs g \<and> columns (set_geometry g gs) = columns g
     \<and> (\<forall>n. n \<noteq> ''geometry'' \<longrightarrow> map_of (frame (set_geometry g gs)) n = map_of (frame g) n)"
proof -
  assume a: "''geometry'' \<in> set (columns g)"
  have "map fst (map (\<lambda>(n, c). if n = ''geometry'' then (n, GeomCol gs) else (n, c)) fr) = map fst fr"
    for fr :: "(string \<times> column) list"
    by (induction fr) (auto split: prod.splits)
  with a show ?thesis
    by (simp add: set_geometry_def columns_def map_of_set_geometry_other)
qed

text \<open>
  C4, as the code has it. When every geometry of the frame is valid, the repair returns
  the frame unchanged. When at least one is invalid (or missing), the repair replaces the
  whole geometry column: every geometry, valid or not, by its zero-distance buffer, in
  place and in order; the CRS, the columns' names and the other columns stay as they are.
\<close>

theorem validate_and_fix_geometries_whole_column:
  "geometry_series g = Inr gs \<Longrightarrow>
     (list_all id (is_valid_series env gs) \<longrightarrow> snd (validate_and_fix_geometries env g) = Inr g)
     \<and> (\<not> list_all id (is_valid_series env gs) \<longrightarrow>
          (\<exists>g'. snd (validate_and_fix_geometries env g) = Inr g'
              \<and> geometry_series g' = Inr (map (map_option (buffer0 env)) gs)
              \<and> crs g' = crs g \<and> columns g' = columns g
              \<and> (\<forall>n. n \<noteq> ''geometry'' \<longrightarrow> map_of (frame g') n = map_of (frame g) n)))"
proof -
  assume gs: "geometry_series g = Inr gs"
  then have col: "''geometry'' \<in> set (columns g)" by (rule geometry_series_Inr_columns)
  show ?thesis
  proof (cases "list_all id (is_valid_series env gs)")
    case True
    with gs show ?thesis
      by (simp add: validate_and_fix_geometries_def invalid_count_pos)
  next
    case False
    let ?g' = "set_geometry g (map (map_option (buffer0 env)) gs)"
    from gs False have "snd (validate_and_fix_geometries env g) = Inr ?g'"
      by (simp add: validate_and_fix_geometries_def invalid_count_pos Let_def)
    with False set_geometry_frame [OF col] show ?thesis
      by (simp add: geometry_series_set_geometry)
  qed
qed

theorem validate_and_fix_geometries_whole_column_witness:
  "geometry_series ex_roads =
     Inr [Some (LineString [[0, 0], [1, 1 / 1000000], [2, 0]]), None, Some (Point [5, 5])]
   \<and> is_valid_series ex_env
        [Some (LineString [[0, 0], [1, 1 / 1000000], [2, 0]]), None, Some (Point [5, 5])]
       = [True, False, True]
   \<and> (\<exists>g'. snd (validate_and_fix_geometries ex_env ex_roads) = Inr g'
          \<and> geometry_series g' = Inr [Some (Polygon [] []), None, Some (Polygon [] [])]
          \<and> columns g' = [''geometry''])"
proof -
  let ?gs = "[Some (LineString [[0, 0], [1, 1 / 1000000], [2, 0]]), None, Some (Point [5, 5 :: rat])]"
  have gs: "geometry_series ex_roads = Inr ?gs"
    by (simp add: geometry_series_def ex_roads_def)
  have v: "is_valid_series ex_env ?gs = [True, False, True]"
    by (simp add: is_valid_series_def ex_env_def ex_is_valid_def)
  then have inv: "\<not> list_all id (is_valid_series ex_env ?gs)"
    by simp
  have b: "map (map_option (buffer0 ex_env)) ?gs = [Some (Polygon [] []), None, Some (Polygon [] [])]"
    by (simp add: ex_env_def ex_buffer0_def)
  have c: "columns ex_roads = [''geometry'']"
    by (simp add: columns_def ex_roads_def)
  from validate_and_fix_geometries_whole_column [OF gs, of ex_env] inv b c gs v
  show ?thesis by auto
qed

text \<open>
  C4 as stated fails: in a frame with one invalid polygon and one valid line string, the
  line string is replaced too, by the empty polygon that \<open>buffer(0)\<close> returns for it.
\<close>

theorem validate_and_fix_geometries_changes_valid:
  "geometry_series ex_parcels =
     Inr [Some (Polygon [[0, 0], [2, 0], [1, 1], [2, 2], [0, 2], [1, 1], [0, 0]] []),
          Some (LineString [[0, 0], [1, 1]])]
   \<and> \<not> is_valid ex_env (Polygon [[0, 0], [2, 0], [1, 1], [2, 2], [0, 2], [1, 1], [0, 0]] [])
   \<and> is_valid ex_env (LineString [[0, 0], [1, 1]])
   \<and> (case snd (validate_and_fix_geometries ex_env ex_parcels) of
         Inl e \<Rightarrow> None
       | Inr g' \<Rightarrow> (case geometry_series g' of Inl e \<Rightarrow> None | Inr gs \<Rightarrow> last gs))
       = Some (Polygon [] [])
   \<and> Polygon [] [] \<noteq> LineString [[0, 0], [1, 1]]"
  by (simp add: validate_and_fix_geometries_def geometry_series_def is_valid_series_def
      set_geometry_def columns_def ex_env_def ex_is_valid_def ex_buffer0_def ex_parcels_def)

section \<open>Properties of the simplification\<close>











section \<open>Properties of the attribute cleaner\<close>



















section \<open>Properties of the backup manager\<close>

lemma deleted_backups_append:
  "deleted_backups (xs @ ys) = deleted_backups xs @ deleted_backups ys"
  by (induction xs rule: deleted_backups.induct) simp_all

lemma deleted_backups_map: "deleted_backups (map (\<lambda>b. (INFO, BackupDeleted b)) bs) = bs"
  by (induction bs) simp_all

lemma glob_match_backup_name: "glob_match stem sfx (backup_name stem t sfx)"
  by (simp add: glob_match_def backup_name_def)

lemma backup_name_less:
  "t1 < t2 \<Longrightarrow> length t1 = length t2 \<Longrightarrow> backup_name stem t1 sfx < backup_name stem t2 sfx"
  unfolding backup_name_def list_less_def
  by (intro lexord_append_leftI lexord_sufI) simp_all

lemma filter_removeAll:
  "filter (\<lambda>y. y \<notin> set bs) (removeAll b xs) = filter (\<lambda>y. y \<notin> set (b # bs)) xs"
  by (induction xs) auto

lemma unlink_each_ok:
  "set bs \<inter> undeletable w = {} \<Longrightarrow>
   unlink_each bs w =
     (None, w\<lparr>backup_dir := filter (\<lambda>y. y \<notin> set bs) (backup_dir w),
               logs := logs w @ map (\<lambda>b. (INFO, BackupDeleted b)) bs\<rparr>)"
proof (induction bs arbitrary: w)
  case Nil
  then show ?case by simp
next
  case (Cons b bs)
  let ?w = "w\<lparr>backup_dir := removeAll b (backup_dir w), logs := logs w @ [(INFO, BackupDeleted b)]\<rparr>"
  from Cons.prems have "set bs \<inter> undeletable ?w = {}" by auto
  from Cons.IH [OF this] Cons.prems show ?case
    by (simp add: filter_removeAll del: removeAll_filter_not_eq)
qed

lemma filter_not_in_take:
  "distinct B \<Longrightarrow> filter (\<lambda>y. y \<notin> set (take k B)) B = drop k B"
proof (induction B arbitrary: k)
  case Nil
  then show ?case by simp
next
  case (Cons a B)
  show ?case
  proof (cases k)
    case 0
    then show ?thesis by simp
  next
    case (Suc j)
    from Cons.prems have "a \<notin> set B" by simp
    then have "filter (\<lambda>y. y \<noteq> a \<and> y \<notin> set (take j B)) B = filter (\<lambda>y. y \<notin> set (take j B)) B"
      by (intro filter_cong) auto
    with Cons Suc show ?thesis by simp
  qed
qed

lemma backup_existing_file_step:
  assumes n: "n = backup_name (path_stem p) now (path_suffix p)"
    and D1: "D1 = (if n \<in> set (backup_dir w) then backup_dir w else backup_dir w @ [n])"
    and B: "B = sort (glob_backups (path_stem p) (path_suffix p) D1)"
    and ex: "processed w p \<noteq> None"
    and u: "\<forall>m. glob_match (path_stem p) (path_suffix p) m \<longrightarrow> m \<notin> undeletable w"
  shows "backup_existing_file now p w =
     (None, w\<lparr>backup_dir := filter (\<lambda>y. y \<notin> set (take (length B - 3) B)) D1,
               logs := logs w @ (INFO, BackupCreated n) #
                         map (\<lambda>b. (INFO, BackupDeleted b)) (take (length B - 3) B)\<rparr>)"
proof -
  let ?w1 = "w\<lparr>backup_dir := D1, logs := logs w @ [(INFO, BackupCreated n)]\<rparr>"
  have "set B \<subseteq> {m. glob_match (path_stem p) (path_suffix p) m}"
    by (auto simp: B glob_backups_def)
  with u have "set (take (length B - 3) B) \<inter> undeletable ?w1 = {}"
    by (auto dest: in_set_takeD)
  from unlink_each_ok [OF this]
  have "unlink_each (take (length B - 3) B) ?w1 =
     (None, w\<lparr>backup_dir := filter (\<lambda>y. y \<notin> set (take (length B - 3) B)) D1,
               logs := logs w @ (INFO, BackupCreated n) #
                         map (\<lambda>b. (INFO, BackupDeleted b)) (take (length B - 3) B)\<rparr>)"
    by simp
  moreover from ex obtain fc where "processed w p = Some fc" by blast
  then have "backup_existing_file now p w = unlink_each (take (length B - 3) B) ?w1"
    unfolding backup_existing_file_def Let_def n D1 B by simp
  ultimately show ?thesis by simp
qed

lemma archives_after_backup:
  assumes n: "n = backup_name (path_stem p) now (path_suffix p)"
    and D1: "D1 = (if n \<in> set (backup_dir w) then backup_dir w else backup_dir w @ [n])"
    and B: "B = sort (glob_backups (path_stem p) (path_suffix p) D1)"
    and ex: "processed w p \<noteq> None"
    and d: "distinct (backup_dir w)"
    and u: "\<forall>m. glob_match (path_stem p) (path_suffix p) m \<longrightarrow> m \<notin> undeletable w"
  shows "archives p (snd (backup_existing_file now p w)) = drop (length B - 3) B"
    and "distinct (backup_dir (snd (backup_existing_file now p w)))"
proof -
  let ?G = "glob_match (path_stem p) (path_suffix p)"
  let ?del = "take (length B - 3) B"
  note step = backup_existing_file_step [OF n D1 B ex u]
  from d have d1: "distinct D1" by (simp add: D1)
  then have dB: "distinct B" by (simp add: B glob_backups_def)
  have dir: "backup_dir (snd (backup_existing_file now p w)) = filter (\<lambda>y. y \<notin> set ?del) D1"
    unfolding step by simp
  have "archives p (snd (backup_existing_file now p w))
          = sort (filter ?G (filter (\<lambda>y. y \<notin> set ?del) D1))"
    unfolding archives_def glob_backups_def dir ..
  also have "\<dots> = sort (filter (\<lambda>y. y \<notin> set ?del) (filter ?G D1))"
    by (simp only: filter_filter conj_commute)
  also have "\<dots> = filter (\<lambda>y. y \<notin> set ?del) (sort (filter ?G D1))"
    by (simp only: filter_sort)
  also have "\<dots> = filter (\<lambda>y. y \<notin> set ?del) B"
    by (simp only: B glob_backups_def)
  also have "\<dots> = drop (length B - 3) B"
    using dB by (rule filter_not_in_take)
  finally show "archives p (snd (backup_existing_file now p w)) = drop (length B - 3) B" .
  from d1 show "distinct (backup_dir (snd (backup_existing_file now p w)))"
    unfolding dir by simp
qed

lemma sort_snoc_greatest: "\<forall>m\<in>set xs. m < n \<Longrightarrow> sort (xs @ [n]) = sort xs @ [n]"
  for n :: "'a :: linorder"
  by (rule properties_for_sort) (auto simp: sorted_append less_imp_le)

lemma archives_new_backup:
  assumes n: "n = backup_name (path_stem p) now (path_suffix p)"
    and D1: "D1 = (if n \<in> set (backup_dir w) then backup_dir w else backup_dir w @ [n])"
    and lt: "\<forall>m\<in>set (archives p w). m < n"
  shows "sort (glob_backups (path_stem p) (path_suffix p) D1) = archives p w @ [n]"
proof -
  have g: "glob_match (path_stem p) (path_suffix p) n"
    unfolding n by (rule glob_match_backup_name)
  have "n \<notin> set (backup_dir w)"
  proof
    assume "n \<in> set (backup_dir w)"
    with g have "n \<in> set (archives p w)" by (simp add: archives_def glob_backups_def)
    with lt show False by auto
  qed
  moreover from lt have "\<forall>m\<in>set (filter (glob_match (path_stem p) (path_suffix p)) (backup_dir w)). m < n"
    by (simp add: archives_def glob_backups_def)
  ultimately show ?thesis
    using g by (simp add: D1 archives_def glob_backups_def sort_snoc_greatest del: set_filter)
qed

lemma backup_step_sorted:
  assumes n: "n = backup_name (path_stem p) now (path_suffix p)"
    and ex: "processed w p \<noteq> None"
    and d: "distinct (backup_dir w)"
    and u: "\<forall>m. glob_match (path_stem p) (path_suffix p) m \<longrightarrow> m \<notin> undeletable w"
    and lt: "\<forall>m\<in>set (archives p w). m < n"
  shows "\<exists>w'. backup_existing_file now p w = (None, w')
      \<and> archives p w' = drop (length (archives p w) - 2) (archives p w @ [n])
      \<and> deleted_backups (logs w') =
          deleted_backups (logs w) @ take (length (archives p w) - 2) (archives p w @ [n])
      \<and> distinct (backup_dir w') \<and> processed w' = processed w
      \<and> undeletable w' = undeletable w"
proof -
  define D1 where "D1 = (if n \<in> set (backup_dir w) then backup_dir w else backup_dir w @ [n])"
  define B where "B = sort (glob_backups (path_stem p) (path_suffix p) D1)"
  have B: "B = archives p w @ [n]"
    unfolding B_def using n D1_def lt by (rule archives_new_backup)
  then have k: "length B - 3 = length (archives p w) - 2" by simp
  note step = backup_existing_file_step [OF n D1_def B_def ex u]
  note after = archives_after_backup [OF n D1_def B_def ex d u]
  let ?w' = "snd (backup_existing_file now p w)"
  from step have 1: "backup_existing_file now p w = (None, ?w')" by simp
  from after(1) have 2: "archives p ?w' = drop (length (archives p w) - 2) (archives p w @ [n])"
    unfolding B by simp
  have "deleted_backups (logs ?w') = deleted_backups (logs w) @ take (length B - 3) B"
    unfolding step by (simp add: deleted_backups_append deleted_backups_map)
  then have 3: "deleted_backups (logs ?w') =
      deleted_backups (logs w) @ take (length (archives p w) - 2) (archives p w @ [n])"
    unfolding B by simp
  have 4: "processed ?w' = processed w" "undeletable ?w' = undeletable w"
    unfolding step by simp_all
  from 1 2 3 4 after(2) show ?thesis by blast
qed

lemma keep_three_drop:
  "drop (length (drop (length L - 3) L) + length R - 3) (drop (length L - 3) L @ R)
     = drop (length L + length R - 3) (L @ R)"
proof -
  have "drop (length L - 3) L @ R = drop (length L - 3) (L @ R)" by simp
  moreover have "length (drop (length L - 3) L) + length R - 3 + (length L - 3)
                   = length L + length R - 3"
    by (cases "3 \<le> length L") auto
  ultimately show ?thesis by (simp only: drop_drop)
qed

lemma keep_three_take:
  "take (length L - 3) L @ take (length (drop (length L - 3) L) + length R - 3) (drop (length L - 3) L @ R)
     = take (length L + length R - 3) (L @ R)"
proof -
  have a: "drop (length L - 3) L @ R = drop (length L - 3) (L @ R)" by simp
  have b: "take (length L - 3) L = take (length L - 3) (L @ R)" by simp
  have c: "length L - 3 + (length (drop (length L - 3) L) + length R - 3)
                   = length L + length R - 3"
    by (cases "3 \<le> length L") auto
  show ?thesis
    unfolding a b by (simp only: take_add [symmetric] c)
qed

lemma backup_repeatedly_sorted:
  assumes "ts \<noteq> []"
    and "processed w p \<noteq> None"
    and "distinct (backup_dir w)"
    and "\<forall>m. glob_match (path_stem p) (path_suffix p) m \<longrightarrow> m \<notin> undeletable w"
    and "sorted_wrt (<) (archives p w @ map (\<lambda>t. backup_name (path_stem p) t (path_suffix p)) ts)"
  shows "\<exists>w'. backup_repeatedly ts p w = (None, w')
      \<and> archives p w' =
          drop (length (archives p w) + length ts - 3)
            (archives p w @ map (\<lambda>t. backup_name (path_stem p) t (path_suffix p)) ts)
      \<and> deleted_backups (logs w') =
          deleted_backups (logs w) @
          take (length (archives p w) + length ts - 3)
            (archives p w @ map (\<lambda>t. backup_name (path_stem p) t (path_suffix p)) ts)
      \<and> distinct (backup_dir w') \<and> processed w' = processed w
      \<and> undeletable w' = undeletable w"
  using assms
proof (induction ts arbitrary: w rule: list_nonempty_induct)
  case (single t)
  let ?n = "backup_name (path_stem p) t (path_suffix p)"
  from single.prems(4) have lt: "\<forall>m\<in>set (archives p w). m < ?n"
    by (simp add: sorted_wrt_append)
  from backup_step_sorted [OF refl single.prems(1,2,3) lt]
  obtain w' where w': "backup_existing_file t p w = (None, w')"
    "archives p w' = drop (length (archives p w) - 2) (archives p w @ [?n])"
    "deleted_backups (logs w') =
       deleted_backups (logs w) @ take (length (archives p w) - 2) (archives p w @ [?n])"
    "distinct (backup_dir w')" "processed w' = processed w" "undeletable w' = undeletable w"
    by blast
  have "length (archives p w) + length [t] - 3 = length (archives p w) - 2" by simp
  with w' show ?case by simp
next
  case (cons t ts)
  let ?name = "\<lambda>t. backup_name (path_stem p) t (path_suffix p)"
  let ?A = "archives p w"
  let ?L = "?A @ [?name t]"
  let ?R = "map ?name ts"
  from cons.prems(4) have sorted: "sorted_wrt (<) (?L @ ?R)" by simp
  then have lt: "\<forall>m\<in>set ?A. m < ?name t"
    by (simp add: sorted_wrt_append)
  from backup_step_sorted [OF refl cons.prems(1,2,3) lt]
  obtain w1 where w1: "backup_existing_file t p w = (None, w1)"
    "archives p w1 = drop (length ?A - 2) ?L"
    "deleted_backups (logs w1) = deleted_backups (logs w) @ take (length ?A - 2) ?L"
    "distinct (backup_dir w1)" "processed w1 = processed w" "undeletable w1 = undeletable w"
    by blast
  have k: "length ?A - 2 = length ?L - 3" by simp
  have "archives p w1 @ ?R = drop (length ?L - 3) (?L @ ?R)"
    unfolding w1(2) k by simp
  with sorted have s1: "sorted_wrt (<) (archives p w1 @ ?R)"
    by (simp only: sorted_wrt_drop)
  from cons.prems(1) w1(5) have e1: "processed w1 p \<noteq> None" by simp
  from cons.prems(3) w1(6)
  have u1: "\<forall>m. glob_match (path_stem p) (path_suffix p) m \<longrightarrow> m \<notin> undeletable w1" by simp
  from cons.IH [OF e1 w1(4) u1 s1]
  obtain w' where w': "backup_repeatedly ts p w1 = (None, w')"
    "archives p w' = drop (length (archives p w1) + length ts - 3) (archives p w1 @ ?R)"
    "deleted_backups (logs w') =
       deleted_backups (logs w1) @ take (length (archives p w1) + length ts - 3) (archives p w1 @ ?R)"
    "distinct (backup_dir w')" "processed w' = processed w1" "undeletable w' = undeletable w1"
    by blast
  from w1(1) w'(1) have r: "backup_repeatedly (t # ts) p w = (None, w')" by simp
  have len: "length ?A + length (t # ts) - 3 = length ?L + length ?R - 3" by simp
  have full: "?A @ map ?name (t # ts) = ?L @ ?R" by simp
  have a: "archives p w' = drop (length ?A + length (t # ts) - 3) (?A @ map ?name (t # ts))"
    unfolding len full w'(2) w1(2) k using keep_three_drop [of ?L ?R] by simp
  have b: "deleted_backups (logs w') =
      deleted_backups (logs w) @ take (length ?A + length (t # ts) - 3) (?A @ map ?name (t # ts))"
    unfolding len full w'(3) w1(2,3) k using keep_three_take [of ?L ?R] by simp
  from r a b w'(4,5,6) w1(5,6) show ?case by simp
qed

lemma backup_names_sorted:
  assumes "sorted_wrt (<) ts" and "\<forall>t\<in>set ts. length t = 15"
  shows "sorted_wrt (<) (map (\<lambda>t. backup_name stem t sfx) ts)"
proof -
  have "sorted_wrt (\<lambda>a b. backup_name stem a sfx < backup_name stem b sfx) ts"
    using assms(1)
  proof (rule sorted_wrt_mono_rel [rotated])
    fix a b
    assume "a \<in> set ts" "b \<in> set ts" "a < b"
    with assms(2) show "backup_name stem a sfx < backup_name stem b sfx"
      by (simp add: backup_name_less)
  qed
  then show ?thesis by (simp add: sorted_wrt_map)
qed

lemma archives_strict_sorted: "distinct (backup_dir w) \<Longrightarrow> sorted_wrt (<) (archives p w)"
  by (simp add: archives_def glob_backups_def strict_sorted_iff)

lemma archives_then_names_sorted:
  assumes d: "distinct (backup_dir w)"
    and s: "sorted_wrt (<) ts" and l: "\<forall>t\<in>set ts. length t = 15"
    and i: "\<forall>m\<in>set (archives p w). m < backup_name (path_stem p) (hd ts) (path_suffix p)"
  shows "sorted_wrt (<) (archives p w @ map (\<lambda>t. backup_name (path_stem p) t (path_suffix p)) ts)"
proof -
  let ?name = "\<lambda>t. backup_name (path_stem p) t (path_suffix p)"
  have names: "sorted_wrt (<) (map ?name ts)"
    using s l by (rule backup_names_sorted)
  have "m < ?name t" if m: "m \<in> set (archives p w)" and t: "t \<in> set ts" for m t
  proof (cases ts)
    case Nil
    with t show ?thesis by simp
  next
    case (Cons t0 rest)
    with i m have m0: "m < ?name t0" by simp
    show ?thesis
    proof (cases "t = t0")
      case True
      with m0 show ?thesis by simp
    next
      case False
      with t Cons have "t \<in> set rest" by simp
      with names Cons have "?name t0 < ?name t" by auto
      with m0 show ?thesis by simp
    qed
  qed
  with names archives_strict_sorted [OF d] show ?thesis
    by (auto simp: sorted_wrt_append)
qed

text \<open>
  C1, as the code has it. Let the output file exist, let no backup of it be undeletable,
  and let the backup directory list no name twice. Then one call of the backup operation,
  at whatever time, leaves at most 3 files that match the path's backup pattern. Let
  moreover the times read by \<open>N \<ge> 4\<close> sequential calls be strictly increasing as
  texts of the format \<open>YYYYMMDD_HHMMSS\<close> (15 characters), and let every matching file
  present at the start sort before the first new backup. Then every call returns, after
  each of them at most 3 matching files remain, after the last exactly the 3 most recently
  created remain, and the files deleted over the sequence are the earlier ones in
  increasing order of name, which is oldest first. The stem and the suffix are without
  glob metacharacters.
\<close>

theorem backup_keeps_three_most_recent:
  assumes "glob_literal (path_stem p)" and "glob_literal (path_suffix p)"
    and ex: "processed w p \<noteq> None"
    and d: "distinct (backup_dir w)"
    and u: "\<forall>m. glob_match (path_stem p) (path_suffix p) m \<longrightarrow> m \<notin> undeletable w"
    and s: "sorted_wrt (<) ts"
    and l: "\<forall>t\<in>set ts. length t = 15"
    and i: "\<forall>m\<in>set (archives p w). m < backup_name (path_stem p) (hd ts) (path_suffix p)"
    and n: "4 \<le> length ts"
  shows "length (archives p (snd (backup_existing_file now p w))) \<le> 3
    \<and> (\<forall>k. 0 < k \<and> k \<le> length ts \<longrightarrow>
          fst (backup_repeatedly (take k ts) p w) = None
          \<and> length (archives p (snd (backup_repeatedly (take k ts) p w))) \<le> 3)
    \<and> fst (backup_repeatedly ts p w) = None
    \<and> archives p (snd (backup_repeatedly ts p w)) =
        map (\<lambda>t. backup_name (path_stem p) t (path_suffix p)) (drop (length ts - 3) ts)
    \<and> deleted_backups (logs (snd (backup_repeatedly ts p w))) =
        deleted_backups (logs w) @ archives p w @
        map (\<lambda>t. backup_name (path_stem p) t (path_suffix p)) (take (length ts - 3) ts)
    \<and> sorted_wrt (<)
        (archives p w @
         map (\<lambda>t. backup_name (path_stem p) t (path_suffix p)) (take (length ts - 3) ts))"
proof -
  let ?name = "\<lambda>t. backup_name (path_stem p) t (path_suffix p)"
  let ?A = "archives p w"
  have one: "length (archives p (snd (backup_existing_file now p w))) \<le> 3"
    unfolding archives_after_backup(1) [OF refl refl refl ex d u] by simp
  have each: "fst (backup_repeatedly (take k ts) p w) = None
      \<and> length (archives p (snd (backup_repeatedly (take k ts) p w))) \<le> 3"
    if k: "0 < k \<and> k \<le> length ts" for k
  proof -
    from k have ne: "take k ts \<noteq> []" by auto
    from k have hd: "hd (take k ts) = hd ts" by (cases ts; cases k) auto
    from s have s': "sorted_wrt (<) (take k ts)" by (rule sorted_wrt_take)
    from l have l': "\<forall>t\<in>set (take k ts). length t = 15" by (auto dest: in_set_takeD)
    from i hd have i': "\<forall>m\<in>set ?A. m < ?name (hd (take k ts))" by simp
    from backup_repeatedly_sorted [OF ne ex d u archives_then_names_sorted [OF d s' l' i']]
    obtain w' where "backup_repeatedly (take k ts) p w = (None, w')"
      "archives p w' = drop (length ?A + length (take k ts) - 3) (?A @ map ?name (take k ts))"
      by blast
    then show ?thesis by auto
  qed
  from n have ne: "ts \<noteq> []" by auto
  from backup_repeatedly_sorted [OF ne ex d u archives_then_names_sorted [OF d s l i]]
  obtain w' where w': "backup_repeatedly ts p w = (None, w')"
    "archives p w' = drop (length ?A + length ts - 3) (?A @ map ?name ts)"
    "deleted_backups (logs w') =
       deleted_backups (logs w) @ take (length ?A + length ts - 3) (?A @ map ?name ts)"
    by blast
  from n have k: "length ?A + length ts - 3 - length ?A = length ts - 3"
    "length ?A \<le> length ?A + length ts - 3" by auto
  have a: "archives p (snd (backup_repeatedly ts p w)) = map ?name (drop (length ts - 3) ts)"
    unfolding w'(1) snd_conv w'(2) using k by (simp add: drop_map)
  have b: "deleted_backups (logs (snd (backup_repeatedly ts p w))) =
      deleted_backups (logs w) @ ?A @ map ?name (take (length ts - 3) ts)"
    unfolding w'(1) snd_conv w'(3) using k by (simp add: take_map)
  have "?A @ map ?name (take (length ts - 3) ts) = take (length ?A + length ts - 3) (?A @ map ?name ts)"
    using k by (simp add: take_map)
  with archives_then_names_sorted [OF d s l i]
  have c: "sorted_wrt (<) (?A @ map ?name (take (length ts - 3) ts))"
    by (simp only: sorted_wrt_take)
  from one each w'(1) a b c show ?thesis by simp
qed

theorem backup_keeps_three_most_recent_witness:
  "glob_literal (path_stem ''lots.geojson'') \<and> glob_literal (path_suffix ''lots.geojson'')
   \<and> processed ex_world ''lots.geojson'' \<noteq> None
   \<and> distinct (backup_dir ex_world)
   \<and> undeletable ex_world = {}
   \<and> sorted_wrt (<) [''20240201_120000'', ''20240301_120000'', ''20240401_120000'',
                     ''20240501_120000'']
   \<and> archives ''lots.geojson'' ex_world = [''lots_20240101_120000.geojson'']
   \<and> ''lots_20240101_120000.geojson'' < ''lots_20240201_120000.geojson''
   \<and> fst (backup_repeatedly [''20240201_120000'', ''20240301_120000'', ''20240401_120000'',
                               ''20240501_120000''] ''lots.geojson'' ex_world) = None
   \<and> archives ''lots.geojson''
        (snd (backup_repeatedly [''20240201_120000'', ''20240301_120000'', ''20240401_120000'',
                                 ''20240501_120000''] ''lots.geojson'' ex_world))
       = [''lots_20240301_120000.geojson'', ''lots_20240401_120000.geojson'',
          ''lots_20240501_120000.geojson'']
   \<and> deleted_backups
        (logs (snd (backup_repeatedly [''20240201_120000'', ''20240301_120000'',
                                       ''20240401_120000'', ''20240501_120000'']
                     ''lots.geojson'' ex_world)))
       = [''lots_20240101_120000.geojson'', ''lots_20240201_120000.geojson'']"
proof -
  let ?p = "''lots.geojson''"
  let ?ts = "[''20240201_120000'', ''20240301_120000'', ''20240401_120000'', ''20240501_120000'']"
  have st: "path_stem ?p = ''lots''" and sf: "path_suffix ?p = ''.geojson''"
    by code_simp+
  have g: "glob_literal (path_stem ?p)" "glob_literal (path_suffix ?p)"
    by code_simp+
  have ex: "processed ex_world ?p \<noteq> None" by (simp add: ex_world_def)
  have d: "distinct (backup_dir ex_world)" by (simp add: ex_world_def)
  have u0: "undeletable ex_world = {}" by (simp add: ex_world_def)
  then have u: "\<forall>m. glob_match (path_stem ?p) (path_suffix ?p) m \<longrightarrow> m \<notin> undeletable ex_world"
    by simp
  have s: "sorted_wrt (<) ?ts" by code_simp
  have l: "\<forall>t\<in>set ?ts. length t = 15" by simp
  have a: "archives ?p ex_world = [''lots_20240101_120000.geojson'']" by code_simp
  have lt: "''lots_20240101_120000.geojson'' < ''lots_20240201_120000.geojson''" by code_simp
  have i: "\<forall>m\<in>set (archives ?p ex_world). m < backup_name (path_stem ?p) (hd ?ts) (path_suffix ?p)"
    unfolding a st sf using lt by (simp add: backup_name_def)
  have n: "4 \<le> length ?ts" by simp
  have lg: "logs ex_world = []" by (simp add: ex_world_def)
  note r = backup_keeps_three_most_recent [OF g ex d u s l i n, of undefined]
  from r have r1: "fst (backup_repeatedly ?ts ?p ex_world) = None" by blast
  from r have "archives ?p (snd (backup_repeatedly ?ts ?p ex_world)) =
        map (\<lambda>t. backup_name (path_stem ?p) t (path_suffix ?p)) (drop (length ?ts - 3) ?ts)"
    by blast
  then have r2: "archives ?p (snd (backup_repeatedly ?ts ?p ex_world))
       = [''lots_20240301_120000.geojson'', ''lots_20240401_120000.geojson'',
          ''lots_20240501_120000.geojson'']"
    unfolding st sf by (simp add: backup_name_def)
  from r have "deleted_backups (logs (snd (backup_repeatedly ?ts ?p ex_world))) =
        deleted_backups (logs ex_world) @ archives ?p ex_world @
        map (\<lambda>t. backup_name (path_stem ?p) t (path_suffix ?p)) (take (length ?ts - 3) ?ts)"
    by blast
  then have r3: "deleted_backups (logs (snd (backup_repeatedly ?ts ?p ex_world)))
       = [''lots_20240101_120000.geojson'', ''lots_20240201_120000.geojson'']"
    unfolding st sf a lg by (simp add: backup_name_def)
  from g ex d u0 s a lt r1 r2 r3 show ?thesis by blast
qed

text \<open>
  C1 as stated fails for times that are distinct but not increasing (a local clock set
  back by an hour between the second and the third call): after 4 sequential backups the
  third one created has been deleted and the first one created remains.
\<close>

theorem backup_distinct_times_not_most_recent:
  "distinct [''20241027_025900'', ''20241027_025930'', ''20241027_020010'', ''20241027_020040'']
   \<and> fst (backup_repeatedly
            [''20241027_025900'', ''20241027_025930'', ''20241027_020010'', ''20241027_020040'']
            ''lots.geojson'' (ex_world\<lparr>backup_dir := []\<rparr>)) = None
   \<and> archives ''lots.geojson''
        (snd (backup_repeatedly
               [''20241027_025900'', ''20241027_025930'', ''20241027_020010'', ''20241027_020040'']
               ''lots.geojson'' (ex_world\<lparr>backup_dir := []\<rparr>)))
       = [''lots_20241027_020040.geojson'', ''lots_20241027_025900.geojson'',
          ''lots_20241027_025930.geojson'']
   \<and> deleted_backups
        (logs (snd (backup_repeatedly
               [''20241027_025900'', ''20241027_025930'', ''20241027_020010'', ''20241027_020040'']
               ''lots.geojson'' (ex_world\<lparr>backup_dir := []\<rparr>))))
       = [''lots_20241027_020010.geojson'']
   \<and> set [''lots_20241027_020040.geojson'', ''lots_20241027_025900.geojson'',
           ''lots_20241027_025930.geojson'']
       \<noteq> set [''lots_20241027_025930.geojson'', ''lots_20241027_020010.geojson'',
               ''lots_20241027_020040.geojson'']"
  by code_simp

text \<open>
  The pattern of a stem also matches the backups of a longer stem (\<open>lots_*.geojson\<close>
  matches the backups of \<open>lots_old.geojson\<close>), which then count among the files to
  prune: with three backups of \<open>lots_old.geojson\<close> present, every new backup of
  \<open>lots.geojson\<close> sorts first and is deleted at once.
\<close>

lemma backup_pattern_matches_longer_stem:
  "archives ''lots.geojson''
     (snd (backup_repeatedly
            [''20240201_120000'', ''20240301_120000'', ''20240401_120000'', ''20240501_120000'']
            ''lots.geojson''
            (ex_world\<lparr>backup_dir := [''lots_old_20230101_120000.geojson'',
                                       ''lots_old_20230201_120000.geojson'',
                                       ''lots_old_20230301_120000.geojson'']\<rparr>)))
     = [''lots_old_20230101_120000.geojson'', ''lots_old_20230201_120000.geojson'',
        ''lots_old_20230301_120000.geojson'']
   \<and> deleted_backups
        (logs (snd (backup_repeatedly
            [''20240201_120000'', ''20240301_120000'', ''20240401_120000'', ''20240501_120000'']
            ''lots.geojson''
            (ex_world\<lparr>backup_dir := [''lots_old_20230101_120000.geojson'',
                                       ''lots_old_20230201_120000.geojson'',
                                       ''lots_old_20230301_120000.geojson'']\<rparr>))))
     = [''lots_20240201_120000.geojson'', ''lots_20240301_120000.geojson'',
        ''lots_20240401_120000.geojson'', ''lots_20240501_120000.geojson'']"
  by code_simp

section \<open>Properties of the layer pipeline\<close>






lemma round_features_null_geometry:
  "\<exists>e. round_features rnd (before @ f # rest) = Inl e" if "geometry f = None"
  using that by (induction before) (auto split: option.splits sum.splits)

lemma round_features_empty_coordinates:
  "\<exists>e. round_features rnd (before @ f # rest) = Inl e"
  if "geometry f = Some geom" and "coordinates geom = Some (Array [])"
  using that by (induction before) (auto split: option.splits sum.splits)

text \<open>
  C10. The rounding pass is partial. A serialized collection with a feature whose
  geometry is null makes it raise (\<open>TypeError\<close> when that feature is the first to
  fail), and so does one with a feature whose coordinates are the empty list
  (\<open>IndexError\<close>). In \<open>process_layer\<close> the exception is caught and the job is marked
  failed: so it is for a source whose only feature has no geometry, and for one whose
  only feature is an empty polygon.
\<close>

theorem rounding_pass_partial:
  "(\<exists>e. round_features rnd
          (before @ \<lparr>geometry = None, properties = ps\<rparr> # rest) = Inl e)
   \<and> round_features rnd (\<lparr>geometry = None, properties = ps\<rparr> # rest) = Inl TypeError
   \<and> (\<exists>e. round_features rnd
          (before @ \<lparr>geometry = Some \<lparr>gtype = t, coordinates = Some (Array [])\<rparr>,
                     properties = ps\<rparr> # rest) = Inl e)
   \<and> round_features rnd
        (\<lparr>geometry = Some \<lparr>gtype = t, coordinates = Some (Array [])\<rparr>, properties = ps\<rparr> # rest)
       = Inl IndexError
   \<and> process_layer default_config ex_env now ''lots'' ex_lots (ex_first_run ex_null_geometry)
       = (False,
          (ex_first_run ex_null_geometry)
            \<lparr>processed := [''lots.geojson'' \<mapsto>
                             [\<lparr>geometry = None, properties = [(''name'', VStr ''A'')]\<rparr>]],
              logs := [(INFO, LayerStart ''lots''), (WARNING, InvalidGeometries 1),
                       (INFO, GeometriesFixed), (INFO, SimplificationDone),
                       (ERROR, LayerError ''lots'' TypeError)]\<rparr>)
   \<and> process_layer default_config ex_env now ''lots'' ex_lots (ex_first_run ex_empty_polygon)
       = (False,
          (ex_first_run ex_empty_polygon)
            \<lparr>processed := [''lots.geojson'' \<mapsto>
                             [\<lparr>geometry = Some \<lparr>gtype = ''Polygon'', coordinates = Some (Array [])\<rparr>,
                               properties = [(''name'', VStr ''A'')]\<rparr>]],
              logs := [(INFO, LayerStart ''lots''), (INFO, SimplificationDone),
                       (ERROR, LayerError ''lots'' IndexError)]\<rparr>)"
proof -
  have 1: "\<exists>e. round_features rnd (before @ \<lparr>geometry = None, properties = ps\<rparr> # rest) = Inl e"
    by (rule round_features_null_geometry) simp
  have 2: "round_features rnd (\<lparr>geometry = None, properties = ps\<rparr> # rest) = Inl TypeError"
    by simp
  have 3: "\<exists>e. round_features rnd
          (before @ \<lparr>geometry = Some \<lparr>gtype = t, coordinates = Some (Array [])\<rparr>,
                     properties = ps\<rparr> # rest) = Inl e"
    by (rule round_features_empty_coordinates [where geom = "\<lparr>gtype = t, coordinates = Some (Array [])\<rparr>"])
       simp_all
  have 4: "round_features rnd
        (\<lparr>geometry = Some \<lparr>gtype = t, coordinates = Some (Array [])\<rparr>, properties = ps\<rparr> # rest)
       = Inl IndexError"
    by simp
  have 5: "process_layer default_config ex_env now ''lots'' ex_lots (ex_first_run ex_null_geometry)
       = (False,
          (ex_first_run ex_null_geometry)
            \<lparr>processed := [''lots.geojson'' \<mapsto>
                             [\<lparr>geometry = None, properties = [(''name'', VStr ''A'')]\<rparr>]],
              logs := [(INFO, LayerStart ''lots''), (WARNING, InvalidGeometries 1),
                       (INFO, GeometriesFixed), (INFO, SimplificationDone),
                       (ERROR, LayerError ''lots'' TypeError)]\<rparr>)"
    by (simp add: process_layer_def process_layer_try_def backup_existing_file_def
        ex_first_run_def ex_lots_def ex_null_geometry_def transform_def
        validate_and_fix_geometries_def geometry_series_def is_valid_series_def
        set_geometry_def columns_def ex_env_def default_config_def simplify_stage_def
        total_vertices_def simplify_geometries_def count_vertices_def reduction_report_def
        clean_attributes_def startswith_def ex_to_geojson_def row_properties_def Let_def)
  have 6: "process_layer default_config ex_env now ''lots'' ex_lots (ex_first_run ex_empty_polygon)
       = (False,
          (ex_first_run ex_empty_polygon)
            \<lparr>processed := [''lots.geojson'' \<mapsto>
                             [\<lparr>geometry = Some \<lparr>gtype = ''Polygon'', coordinates = Some (Array [])\<rparr>,
                               properties = [(''name'', VStr ''A'')]\<rparr>]],
              logs := [(INFO, LayerStart ''lots''), (INFO, SimplificationDone),
                       (ERROR, LayerError ''lots'' IndexError)]\<rparr>)"
    by (simp add: process_layer_def process_layer_try_def backup_existing_file_def
        ex_first_run_def ex_lots_def ex_empty_polygon_def transform_def
        validate_and_fix_geometries_def geometry_series_def is_valid_series_def
        set_geometry_def columns_def ex_env_def default_config_def simplify_stage_def
        total_vertices_def simplify_geometries_def count_vertices_def reduction_report_def
        clean_attributes_def startswith_def ex_to_geojson_def row_properties_def Let_def
        ex_is_valid_def geometry_json_def len_def)
  from 1 2 3 4 5 6 show ?thesis by blast
qed

section \<open>Properties of the run\<close>
















end
